theory Spec2Isabelle
  imports Complex_Main
begin

section \<open>Static replication of a decompounded CMS payoff: the notebook's functions\<close>

text \<open>
  The notebook \<^verbatim>\<open>QF 605 Part 4 Final.ipynb\<close> prices a payoff on a constant maturity swap
  rate by static replication with IRR-settled swaptions under a SABR smile. Its functions
  are arithmetic on Python floats; they are embedded here over the reals:
  \<^item> a float is a \<^typ>\<open>real\<close>, the integers \<^verbatim>\<open>m\<close> and \<^verbatim>\<open>N\<close> are \<^typ>\<open>int\<close>;
  \<^item> \<^verbatim>\<open>x**n\<close> with an integer \<^verbatim>\<open>n\<close> is \<open>x powi n\<close> (or \<open>x ^ n\<close> for a literal \<open>n\<close>),
    \<^verbatim>\<open>x**y\<close> with a float \<^verbatim>\<open>y\<close> is \<open>x powr y\<close>;
  \<^item> \<^verbatim>\<open>np.log\<close> is \<open>ln\<close>, \<^verbatim>\<open>np.sqrt\<close> is \<open>sqrt\<close>, \<^verbatim>\<open>abs\<close> is \<open>\<bar>_\<bar>\<close>.

  Where Python raises \<^verbatim>\<open>ZeroDivisionError\<close> or yields \<^verbatim>\<open>nan\<close> (a zero strike, a negative base
  under a fractional exponent, a non-positive argument of the logarithm), the functions of
  HOL return a conventional value (\<open>x / 0 = 0\<close>, \<open>ln 0 = 0\<close>, \<open>ln (- x) = ln x\<close>). The
  theorems about values carry the hypotheses that keep every argument inside the domain on
  which both agree.
\<close>

subsection \<open>IRR functions\<close>

definition IRR_0 :: "real \<Rightarrow> int \<Rightarrow> int \<Rightarrow> real" where
  "IRR_0 K m N = 1 / K * (1 - 1 / (1 + K / of_int m) powi (N * m))"

definition IRR_1 :: "real \<Rightarrow> int \<Rightarrow> int \<Rightarrow> real" where
  "IRR_1 K m N =
     (- 1) / K * IRR_0 K m N
     + 1 / (K * of_int m) * of_int N * of_int m / (1 + K / of_int m) powi (N * m + 1)"

definition IRR_2 :: "real \<Rightarrow> int \<Rightarrow> int \<Rightarrow> real" where
  "IRR_2 K m N =
     (- 2) / K * IRR_1 K m N
     - 1 / (K * of_int m * of_int m) * of_int (N * m) * of_int (N * m + 1)
         / (1 + K / of_int m) powi (N * m + 2)"

subsection \<open>Payoff functions\<close>

definition g_0 :: "real \<Rightarrow> real" where
  "g_0 K = K powr (1 / 4) - (4 / 100) powr (1 / 2)"

definition g_1 :: "real \<Rightarrow> real" where
  "g_1 K = (1 / 4) * K powr ((- 3) / 4)"

definition g_2 :: "real \<Rightarrow> real" where
  "g_2 K = ((- 3) / 16) * K powr ((- 7) / 4)"

subsection \<open>Replication weights\<close>

definition h_0 :: "real \<Rightarrow> int \<Rightarrow> int \<Rightarrow> real" where
  "h_0 K m N = g_0 K / IRR_0 K m N"

definition h_1 :: "real \<Rightarrow> int \<Rightarrow> int \<Rightarrow> real" where
  "h_1 K m N = (IRR_0 K m N * g_1 K - g_0 K * IRR_1 K m N) / (IRR_0 K m N) ^ 2"

definition h_2 :: "real \<Rightarrow> int \<Rightarrow> int \<Rightarrow> real" where
  "h_2 K m N =
     (IRR_0 K m N * g_2 K - IRR_2 K m N * g_0 K - 2 * IRR_1 K m N * g_1 K) / (IRR_0 K m N) ^ 2
     + 2 * (IRR_1 K m N) ^ 2 * g_0 K / (IRR_0 K m N) ^ 3"

subsection \<open>SABR implied volatility\<close>

definition SABR :: "real \<Rightarrow> real \<Rightarrow> real \<Rightarrow> real \<Rightarrow> real \<Rightarrow> real \<Rightarrow> real \<Rightarrow> real" where
  "SABR F K T alpha beta rho nu =
     (let X = K in
      if \<bar>F - K\<bar> < 1 / 10 ^ 12 then
        (let numer1 = (((1 - beta) ^ 2) / 24) * alpha * alpha / (F powr (2 - 2 * beta));
             numer2 = (1 / 4) * rho * beta * nu * alpha / (F powr (1 - beta));
             numer3 = ((2 - 3 * rho * rho) / 24) * nu * nu;
             VolAtm = alpha * (1 + (numer1 + numer2 + numer3) * T) / (F powr (1 - beta))
         in VolAtm)
      else
        (let z = (nu / alpha) * ((F * X) powr ((1 / 2) * (1 - beta))) * ln (F / X);
             zhi = ln ((((1 - 2 * rho * z + z * z) powr (1 / 2)) + z - rho) / (1 - rho));
             numer1 = (((1 - beta) ^ 2) / 24) * ((alpha * alpha) / ((F * X) powr (1 - beta)));
             numer2 = (1 / 4) * rho * beta * nu * alpha / ((F * X) powr ((1 - beta) / 2));
             numer3 = ((2 - 3 * rho * rho) / 24) * nu * nu;
             numer = alpha * (1 + (numer1 + numer2 + numer3) * T) * z;
             denom1 = ((1 - beta) ^ 2 / 24) * (ln (F / X)) ^ 2;
             denom2 = (((1 - beta) ^ 4) / 1920) * ((ln (F / X)) ^ 4);
             denom = ((F * X) powr ((1 - beta) / 2)) * (1 + denom1 + denom2) * zhi
         in numer / denom))"

subsection \<open>Black76 prices\<close>

text \<open>
  \<^verbatim>\<open>norm.cdf\<close> is SciPy's standard normal distribution function, which SciPy computes as
  \<open>(1 + erf (x / sqrt 2)) / 2\<close>. Over the reals the error function is the sum of its
  Maclaurin series.
\<close>

definition erf_term :: "real \<Rightarrow> nat \<Rightarrow> real" where
  "erf_term x n = (- 1) ^ n * (x ^ (2 * n + 1) / (fact n * real (2 * n + 1)))"

definition erf :: "real \<Rightarrow> real" where
  "erf x = 2 / sqrt pi * (\<Sum>n. erf_term x n)"

definition norm_cdf :: "real \<Rightarrow> real" where
  "norm_cdf x = (1 + erf (x / sqrt 2)) / 2"

definition Black76Call :: "real \<Rightarrow> real \<Rightarrow> real \<Rightarrow> real \<Rightarrow> real" where
  "Black76Call F K sigma T =
     (let d1 = (ln (F / K) + (sigma ^ 2) * T / 2) / (sigma * sqrt T);
          d2 = (ln (F / K) - (sigma ^ 2) * T / 2) / (sigma * sqrt T)
      in F * norm_cdf d1 - K * norm_cdf d2)"

definition Black76Put :: "real \<Rightarrow> real \<Rightarrow> real \<Rightarrow> real \<Rightarrow> real" where
  "Black76Put F K sigma T =
     (let d1 = (ln (F / K) + (sigma ^ 2) * T / 2) / (sigma * sqrt T);
          d2 = (ln (F / K) - (sigma ^ 2) * T / 2) / (sigma * sqrt T)
      in K * norm_cdf (- d2) - F * norm_cdf (- d1))"

subsection \<open>IRR-settled swaptions and the replication integrands\<close>

definition payer_swaption :: "real \<Rightarrow> real \<Rightarrow> real \<Rightarrow> real \<Rightarrow> real \<Rightarrow> int \<Rightarrow> int \<Rightarrow> real" where
  "payer_swaption discount F K sigma T m N = discount * IRR_0 F m N * Black76Call F K sigma T"

definition receiver_swaption :: "real \<Rightarrow> real \<Rightarrow> real \<Rightarrow> real \<Rightarrow> real \<Rightarrow> int \<Rightarrow> int \<Rightarrow> real" where
  "receiver_swaption discount F K sigma T m N = discount * IRR_0 F m N * Black76Put F K sigma T"

definition call_integrand :: "real \<Rightarrow> real \<Rightarrow> real \<Rightarrow> real \<Rightarrow> real \<Rightarrow> int \<Rightarrow> int \<Rightarrow> real" where
  "call_integrand discount F K sigma T m N =
     (let price = h_2 K m N * payer_swaption discount F K sigma T m N in price)"

definition put_integrand :: "real \<Rightarrow> real \<Rightarrow> real \<Rightarrow> real \<Rightarrow> real \<Rightarrow> int \<Rightarrow> int \<Rightarrow> real" where
  "put_integrand discount F K sigma T m N =
     (let price = h_2 K m N * receiver_swaption discount F K sigma T m N in price)"

subsection \<open>The two replication scenarios\<close>

text \<open>
  \<^verbatim>\<open>scipy.integrate.quad(f, a, b)\<close> is not code of the notebook: it returns a pair, an
  estimate of the integral of \<open>f\<close> from \<open>a\<close> to \<open>b\<close> and an error bound, and the notebook
  reads the first component. The integrator is a parameter of the two scenarios; the
  market data and the SABR parameters, which the notebook reads from tables, are
  parameters too. \<open>L\<close> is the notebook's threshold of the second scenario; \<open>I_call2\<close> and
  \<open>v_1\<close> take the threshold as an argument, and the notebook evaluates them at \<open>L\<close>.
\<close>

type_synonym integrator = "(real \<Rightarrow> real) \<Rightarrow> real \<Rightarrow> real \<Rightarrow> real \<times> real"

definition I_put ::
  "integrator \<Rightarrow> real \<Rightarrow> real \<Rightarrow> real \<Rightarrow> int \<Rightarrow> int \<Rightarrow> real \<Rightarrow> real \<Rightarrow> real \<Rightarrow> real \<Rightarrow> real \<times> real" where
  "I_put quad discount F T m N alpha beta rho nu =
     quad (\<lambda>x. put_integrand discount F x (SABR F x T alpha beta rho nu) T m N) 0 F"

definition I_call ::
  "integrator \<Rightarrow> real \<Rightarrow> real \<Rightarrow> real \<Rightarrow> int \<Rightarrow> int \<Rightarrow> real \<Rightarrow> real \<Rightarrow> real \<Rightarrow> real \<Rightarrow> real \<times> real" where
  "I_call quad discount F T m N alpha beta rho nu =
     quad (\<lambda>x. call_integrand discount F x (SABR F x T alpha beta rho nu) T m N) F 5000"

definition v_0 ::
  "integrator \<Rightarrow> real \<Rightarrow> real \<Rightarrow> real \<Rightarrow> int \<Rightarrow> int \<Rightarrow> real \<Rightarrow> real \<Rightarrow> real \<Rightarrow> real \<Rightarrow> real" where
  "v_0 quad discount F T m N alpha beta rho nu =
     discount * g_0 F
     + fst (I_put quad discount F T m N alpha beta rho nu)
     + fst (I_call quad discount F T m N alpha beta rho nu)"

definition L :: real where
  "L = ((4 / 100) powr (1 / 2)) ^ 4"

definition I_call2 ::
  "integrator \<Rightarrow> real \<Rightarrow> real \<Rightarrow> real \<Rightarrow> real \<Rightarrow> int \<Rightarrow> int \<Rightarrow> real \<Rightarrow> real \<Rightarrow> real \<Rightarrow> real
     \<Rightarrow> real \<times> real" where
  "I_call2 quad discount F Lx T m N alpha beta rho nu =
     quad (\<lambda>x. call_integrand discount F x (SABR F x T alpha beta rho nu) T m N) Lx 5000"

definition v_1 ::
  "integrator \<Rightarrow> real \<Rightarrow> real \<Rightarrow> real \<Rightarrow> real \<Rightarrow> int \<Rightarrow> int \<Rightarrow> real \<Rightarrow> real \<Rightarrow> real \<Rightarrow> real
     \<Rightarrow> real" where
  "v_1 quad discount F Lx T m N alpha beta rho nu =
     h_1 Lx m N * payer_swaption discount F Lx (SABR F Lx T alpha beta rho nu) T m N
     + fst (I_call2 quad discount F Lx T m N alpha beta rho nu)"

subsection \<open>Reference formulas\<close>

text \<open>
  The payoff module as the specification words it: the payoff \<open>K^(1/p) - L0^(1/q)\<close> with
  the exponents \<open>p\<close>, \<open>q\<close> and the level \<open>L0\<close> as arguments, and its power-rule derivatives.
  These three functions are not code of the notebook; \<open>g_0\<close>, \<open>g_1\<close> and \<open>g_2\<close> are
  compared with them.
\<close>

definition g_spec :: "real \<Rightarrow> real \<Rightarrow> real \<Rightarrow> real \<Rightarrow> real" where
  "g_spec p q L0 K = K powr (1 / p) - L0 powr (1 / q)"

definition g_spec_1 :: "real \<Rightarrow> real \<Rightarrow> real" where
  "g_spec_1 p K = (1 / p) * K powr (1 / p - 1)"

definition g_spec_2 :: "real \<Rightarrow> real \<Rightarrow> real" where
  "g_spec_2 p K = (1 / p) * (1 / p - 1) * K powr (1 / p - 2)"

text \<open>
  The SABR formula read literally from the specification: the three correction terms are
  defined once, from the forward \<open>F\<close> alone, and the same three terms appear in the
  at-the-money form and in the general form. This function is not code of the notebook;
  \<open>SABR\<close> is compared with it.
\<close>

definition SABR_claimed :: "real \<Rightarrow> real \<Rightarrow> real \<Rightarrow> real \<Rightarrow> real \<Rightarrow> real \<Rightarrow> real \<Rightarrow> real" where
  "SABR_claimed F K T alpha beta rho nu =
     (let term1 = ((1 - beta)\<^sup>2 / 24) * alpha\<^sup>2 / F powr (2 - 2 * beta);
          term2 = (1 / 4) * rho * beta * nu * alpha / F powr (1 - beta);
          term3 = ((2 - 3 * rho\<^sup>2) / 24) * nu\<^sup>2
      in if \<bar>F - K\<bar> < 1 / 10 ^ 12 then
           alpha * (1 + (term1 + term2 + term3) * T) / F powr (1 - beta)
         else
           (let z = (nu / alpha) * (F * K) powr ((1 - beta) / 2) * ln (F / K);
                chi = ln ((sqrt (1 - 2 * rho * z + z\<^sup>2) + z - rho) / (1 - rho));
                denom1 = ((1 - beta)\<^sup>2 / 24) * (ln (F / K))\<^sup>2;
                denom2 = ((1 - beta) ^ 4 / 1920) * (ln (F / K)) ^ 4
            in alpha * (1 + (term1 + term2 + term3) * T) * z
                 / ((F * K) powr ((1 - beta) / 2) * (1 + denom1 + denom2) * chi)))"

subsection \<open>Two sub-expressions of SABR\<close>

text \<open>
  In both branches the value of \<open>SABR\<close> is a product. \<open>SABR_factor\<close> is the factor
  \<open>1 + (numer1 + numer2 + numer3) * T\<close> of the branch that is taken, and \<open>SABR_weight\<close>
  is everything else: \<open>alpha / F powr (1 - beta)\<close> at the money, and
  \<open>alpha * z / (((F * X) powr ((1 - beta) / 2)) * (1 + denom1 + denom2) * zhi)\<close> otherwise.
\<close>

definition SABR_factor :: "real \<Rightarrow> real \<Rightarrow> real \<Rightarrow> real \<Rightarrow> real \<Rightarrow> real \<Rightarrow> real \<Rightarrow> real" where
  "SABR_factor F K T alpha beta rho nu =
     (if \<bar>F - K\<bar> < 1 / 10 ^ 12 then
        1 + ((((1 - beta) ^ 2) / 24) * alpha * alpha / (F powr (2 - 2 * beta))
             + (1 / 4) * rho * beta * nu * alpha / (F powr (1 - beta))
             + ((2 - 3 * rho * rho) / 24) * nu * nu) * T
      else
        1 + ((((1 - beta) ^ 2) / 24) * ((alpha * alpha) / ((F * K) powr (1 - beta)))
             + (1 / 4) * rho * beta * nu * alpha / ((F * K) powr ((1 - beta) / 2))
             + ((2 - 3 * rho * rho) / 24) * nu * nu) * T)"

definition SABR_weight :: "real \<Rightarrow> real \<Rightarrow> real \<Rightarrow> real \<Rightarrow> real \<Rightarrow> real \<Rightarrow> real" where
  "SABR_weight F K alpha beta rho nu =
     (if \<bar>F - K\<bar> < 1 / 10 ^ 12 then alpha / (F powr (1 - beta))
      else
        (let z = (nu / alpha) * ((F * K) powr ((1 / 2) * (1 - beta))) * ln (F / K);
             zhi = ln ((((1 - 2 * rho * z + z * z) powr (1 / 2)) + z - rho) / (1 - rho));
             denom1 = ((1 - beta) ^ 2 / 24) * (ln (F / K)) ^ 2;
             denom2 = (((1 - beta) ^ 4) / 1920) * ((ln (F / K)) ^ 4)
         in alpha * z / (((F * K) powr ((1 - beta) / 2)) * (1 + denom1 + denom2) * zhi)))"

subsection \<open>A concrete integrator\<close>

text \<open>
  The one-point midpoint rule, with error bound \<open>0\<close>: the simplest function of the type of
  \<^verbatim>\<open>quad\<close>. It instantiates the integrator where a closed instance of a scenario is
  evaluated.
\<close>

definition midpoint_quad :: integrator where
  "midpoint_quad f a b = ((b - a) * f ((a + b) / 2), 0)"

section \<open>Scenario 1\<close>

text \<open>
  C1. The value \<open>v_0\<close> of the first scenario is \<open>D * g_0 F\<close>, plus the integrator applied
  on \<open>[0, F]\<close> to \<open>h_2 K m N\<close> times the receiver swaption at strike \<open>K\<close>, plus the
  integrator applied on \<open>[F, 5000]\<close> to \<open>h_2 K m N\<close> times the payer swaption at strike
  \<open>K\<close>; in both integrands the volatility is \<open>SABR F K T alpha beta rho nu\<close>, evaluated at
  the integration point \<open>K\<close>. This holds for every integrator, in particular for the
  exact integral, and for every input.
\<close>

theorem v_0_replication:
  "v_0 quad D F T m N alpha beta rho nu =
     D * g_0 F
     + fst (quad (\<lambda>K. h_2 K m N
              * receiver_swaption D F K (SABR F K T alpha beta rho nu) T m N) 0 F)
     + fst (quad (\<lambda>K. h_2 K m N
              * payer_swaption D F K (SABR F K T alpha beta rho nu) T m N) F 5000)"
  by (simp add: v_0_def I_put_def I_call_def put_integrand_def call_integrand_def)

section \<open>Scenario 2 and its threshold\<close>

lemma powr_half_1_25: "(1 / 25 :: real) powr (1 / 2) = 1 / 5"
proof -
  have "(1 / 25 :: real) powr (1 / 2) = sqrt (1 / 25)"
    by (rule powr_half_sqrt) simp
  also have "\<dots> = 1 / 5"
    by (rule real_sqrt_unique) (simp_all add: power2_eq_square)
  finally show ?thesis .
qed

lemma pow4_powr_quarter: "0 < x \<Longrightarrow> (x ^ 4) powr (1 / 4) = (x::real)"
proof -
  assume pos: "0 < x"
  then have "(x ^ 4) powr (1 / 4) = (x powr (real 4)) powr (1 / 4)"
    by (simp only: powr_realpow)
  also have "\<dots> = x powr (real 4 * (1 / 4))" by (rule powr_powr)
  also have "\<dots> = x" using pos by simp
  finally show ?thesis .
qed

lemma L_value: "L = 16 / 10000"
  by (simp add: L_def powr_half_1_25 power_divide)

lemma L_fourth_power: "L = (2 / 10) ^ 4"
  by (simp add: L_def powr_half_1_25)

lemma L_powr_quarter: "L powr (1 / 4) = (4 / 100) powr (1 / 2)"
  unfolding L_def by (rule pow4_powr_quarter) simp

lemma g_0_L: "g_0 L = 0"
  by (simp add: g_0_def L_powr_quarter)

text \<open>
  C2. The value \<open>v_1\<close> of the second scenario at the notebook's threshold \<open>L\<close> is
  \<open>h_1 L m N\<close> times the payer swaption at strike \<open>L\<close> with volatility
  \<open>SABR F L T alpha beta rho nu\<close>, plus the integrator applied on \<open>[L, 5000]\<close> to
  \<open>h_2 K m N\<close> times the payer swaption at strike \<open>K\<close> with volatility
  \<open>SABR F K T alpha beta rho nu\<close>. The threshold is
  \<open>L = (0.04^(1/2))^4 = 0.2^4 = 0.0016\<close>, and the payoff vanishes there: \<open>g_0 L = 0\<close>.
\<close>

theorem v_1_replication:
  "v_1 quad D F L T m N alpha beta rho nu =
     h_1 L m N * payer_swaption D F L (SABR F L T alpha beta rho nu) T m N
     + fst (quad (\<lambda>K. h_2 K m N
              * payer_swaption D F K (SABR F K T alpha beta rho nu) T m N) L 5000)
   \<and> L = ((4 / 100) powr (1 / 2)) ^ 4 \<and> L = (2 / 10) ^ 4 \<and> L = 16 / 10000 \<and> g_0 L = 0"
proof (intro conjI)
  show "v_1 quad D F L T m N alpha beta rho nu =
     h_1 L m N * payer_swaption D F L (SABR F L T alpha beta rho nu) T m N
     + fst (quad (\<lambda>K. h_2 K m N
              * payer_swaption D F K (SABR F K T alpha beta rho nu) T m N) L 5000)"
    by (simp add: v_1_def I_call2_def call_integrand_def)
  show "L = ((4 / 100) powr (1 / 2)) ^ 4" by (rule L_def)
  show "L = (2 / 10) ^ 4" by (rule L_fourth_power)
  show "L = 16 / 10000" by (rule L_value)
  show "g_0 L = 0" by (rule g_0_L)
qed

section \<open>The payoff functions\<close>

lemma sixteen_powr_quarter: "(16::real) powr (1 / 4) = 2"
  using pow4_powr_quarter[of 2] by simp

lemma sixteen_powr_half: "(16::real) powr (1 / 2) = 4"
proof -
  have "(16::real) powr (1 / 2) = sqrt 16" by (rule powr_half_sqrt) simp
  also have "\<dots> = 4" by (rule real_sqrt_unique) simp_all
  finally show ?thesis .
qed

text \<open>
  C9, as stated: the payoff functions take the exponents \<open>p\<close> and \<open>q\<close> as parameters and
  evaluate \<open>K^(1/p) - L0^(1/q)\<close> for arbitrary \<open>p\<close> and \<open>q\<close>. The notebook's \<open>g_0\<close> takes
  the strike only. At \<open>p = q = 2\<close> and \<open>K = 16\<close> the parametric payoff is
  \<open>4 - 0.2 = 3.8\<close>, while \<open>g_0 16 = 2 - 0.2 = 1.8\<close>.
\<close>

theorem g_0_exponents_counterexample: "g_0 16 \<noteq> g_spec 2 2 (4 / 100) 16"
  by (simp add: g_0_def g_spec_def sixteen_powr_quarter sixteen_powr_half)

text \<open>
  C9, amended: \<open>g_0\<close>, \<open>g_1\<close> and \<open>g_2\<close> are functions of the strike alone; they are the
  payoff \<open>K^(1/p) - L0^(1/q)\<close> and its two power-rule derivatives at the fixed values
  \<open>p = 4\<close>, \<open>q = 2\<close> and \<open>L0 = 0.04\<close>.
\<close>

theorem g_fixed_exponents:
  "g_0 K = g_spec 4 2 (4 / 100) K \<and> g_1 K = g_spec_1 4 K \<and> g_2 K = g_spec_2 4 K"
  by (simp add: g_0_def g_1_def g_2_def g_spec_def g_spec_1_def g_spec_2_def)

section \<open>The normal distribution function\<close>

lemma erf_term_minus: "erf_term (- x) n = - erf_term x n"
  by (simp add: erf_term_def)

lemma summable_erf_term: "summable (erf_term x)"
proof (rule summable_rabs_cancel, rule summable_comparison_test')
  show "summable (\<lambda>n. \<bar>x\<bar> * (inverse (fact n) * (x\<^sup>2) ^ n))"
    by (intro summable_mult summable_exp)
  fix n :: nat
  have "\<bar>x\<bar> ^ (2 * n) = (x\<^sup>2) ^ n"
    by (simp add: power_mult)
  then have "\<bar>erf_term x n\<bar> = \<bar>x\<bar> * (inverse (fact n) * (x\<^sup>2) ^ n) / real (2 * n + 1)"
    by (simp add: erf_term_def abs_mult power_abs divide_simps)
  also have "\<dots> \<le> \<bar>x\<bar> * (inverse (fact n) * (x\<^sup>2) ^ n) / 1"
    by (intro divide_left_mono mult_nonneg_nonneg) simp_all
  finally show "norm \<bar>erf_term x n\<bar> \<le> \<bar>x\<bar> * (inverse (fact n) * (x\<^sup>2) ^ n)" by simp
qed

lemma erf_minus: "erf (- x) = - erf x"
  by (simp add: erf_def erf_term_minus suminf_minus summable_erf_term)

lemma norm_cdf_minus: "norm_cdf (- x) = 1 - norm_cdf x"
  by (simp add: norm_cdf_def erf_minus field_simps)

lemma erf_pos:
  assumes "0 < x" "x \<le> 1"
  shows "0 < erf x"
proof -
  define a where "a n = x ^ (2 * n + 1) / (fact n * real (2 * n + 1))" for n
  have et: "erf_term x n = (- 1) ^ n * a n" for n
    by (simp add: erf_term_def a_def)
  have a_abs: "a n = \<bar>erf_term x n\<bar>" for n
    using assms(1) by (simp add: erf_term_def a_def abs_mult power_abs)
  have "erf_term x \<longlonglongrightarrow> 0"
    by (rule summable_LIMSEQ_zero) (rule summable_erf_term)
  then have a_zero: "a \<longlonglongrightarrow> 0"
    unfolding a_abs[abs_def] by (simp add: tendsto_rabs_zero_iff)
  have a_pos: "0 \<le> a n" for n
    using assms(1) by (simp add: a_def)
  have a_mono: "a (Suc n) \<le> a n" for n
  proof -
    have num: "x ^ (2 * Suc n + 1) \<le> x ^ (2 * n + 1)"
      using assms by (intro power_decreasing) simp_all
    have "fact n * real (2 * n + 1) \<le> fact n * real (2 * Suc n + 1)"
      by (intro mult_left_mono) simp_all
    also have "\<dots> \<le> fact (Suc n) * real (2 * Suc n + 1)"
      by (intro mult_right_mono fact_mono) simp_all
    finally have den: "fact n * real (2 * n + 1) \<le> fact (Suc n) * real (2 * Suc n + 1)" .
    have "x ^ (2 * Suc n + 1) / (fact (Suc n) * real (2 * Suc n + 1))
            \<le> x ^ (2 * n + 1) / (fact n * real (2 * n + 1))"
      using assms(1) by (intro frac_le num den) simp_all
    then show ?thesis by (simp only: a_def)
  qed
  have "(\<Sum>i<2 * 1. (- 1) ^ i * a i) \<le> (\<Sum>i. (- 1) ^ i * a i)"
    using a_zero a_pos a_mono by (rule summable_Leibniz'(2))
  moreover have "(\<Sum>i<2 * 1. (- 1) ^ i * a i) = x - x ^ 3 / 3"
    by (simp add: a_def numeral_2_eq_2 power3_eq_cube)
  moreover have "x ^ 3 \<le> x ^ 1"
    using assms by (intro power_decreasing) simp_all
  ultimately have "0 < (\<Sum>i. (- 1) ^ i * a i)"
    using assms(1) by simp
  then have "0 < (\<Sum>n. erf_term x n)" by (simp add: et)
  then show ?thesis by (simp add: erf_def)
qed

section \<open>Black76 prices and swaptions\<close>

text \<open>
  C4. Put-call parity: for \<open>F > 0\<close>, \<open>K > 0\<close>, \<open>sigma > 0\<close> and \<open>T > 0\<close>, the Black76 call
  price minus the Black76 put price is exactly \<open>F - K\<close>.
\<close>

theorem Black76_put_call_parity:
  assumes "0 < F" "0 < K" "0 < sigma" "0 < T"
  shows "Black76Call F K sigma T - Black76Put F K sigma T = F - K"
  by (simp add: Black76Call_def Black76Put_def Let_def norm_cdf_minus algebra_simps)

theorem Black76_put_call_parity_witness:
  "Black76Call (3 / 100) (4 / 100) (1 / 5) 5 - Black76Put (3 / 100) (4 / 100) (1 / 5) 5
     = - 1 / 100"
  using Black76_put_call_parity[of "3 / 100" "4 / 100" "1 / 5" 5] by simp

text \<open>
  C10. At the money the payer and the receiver swaption have the same value: for
  \<open>F > 0\<close>, \<open>sigma > 0\<close> and \<open>T > 0\<close>, and every discount factor, frequency and number of
  periods, \<open>payer_swaption D F F sigma T m N = receiver_swaption D F F sigma T m N\<close>.
\<close>

theorem swaption_atm_symmetry:
  assumes "0 < F" "0 < sigma" "0 < T"
  shows "payer_swaption D F F sigma T m N = receiver_swaption D F F sigma T m N"
  using assms(1)
  by (simp add: payer_swaption_def receiver_swaption_def Black76Call_def Black76Put_def Let_def)

theorem swaption_atm_symmetry_witness:
  "payer_swaption 1 (3 / 100) (3 / 100) (1 / 5) 5 2 10
     = receiver_swaption 1 (3 / 100) (3 / 100) (1 / 5) 5 2 10"
  using swaption_atm_symmetry[of "3 / 100" "1 / 5" 5 1 2 10] by simp

lemma Black76Call_atm:
  assumes "0 < F" "0 < sigma" "0 < T"
  shows "Black76Call F F sigma T = F * erf (sigma * sqrt T / 2 / sqrt 2)"
proof -
  define d where "d = sigma * sqrt T / 2"
  have "(sigma ^ 2) * T / 2 / (sigma * sqrt T) = sigma * (T / sqrt T) / 2"
    using assms(2) by (simp add: power2_eq_square)
  also have "\<dots> = d"
    using assms(3) by (simp only: d_def real_div_sqrt less_imp_le)
  finally have d1: "(ln (F / F) + (sigma ^ 2) * T / 2) / (sigma * sqrt T) = d"
    using assms(1) by simp
  then have d2: "(ln (F / F) - (sigma ^ 2) * T / 2) / (sigma * sqrt T) = - d"
    using assms(1) by (simp add: field_simps)
  have "Black76Call F F sigma T = F * norm_cdf d - F * norm_cdf (- d)"
    by (simp only: Black76Call_def Let_def d1 d2)
  also have "\<dots> = F * erf (d / sqrt 2)"
    by (simp add: norm_cdf_def erf_minus field_simps)
  finally show ?thesis by (simp only: d_def)
qed

section \<open>The IRR functions\<close>

lemma IRR_0_pos:
  assumes "0 < K" "1 \<le> m" "1 \<le> N"
  shows "0 < IRR_0 K m N"
proof -
  have u: "1 < 1 + K / real_of_int m" using assms by simp
  have n: "0 < N * m" using assms by (simp add: zero_less_mult_iff)
  have "1 < (1 + K / real_of_int m) powi (N * m)"
    using u n by (rule one_less_power_int)
  then have "1 / (1 + K / real_of_int m) powi (N * m) < 1" by simp
  then show ?thesis using assms by (simp add: IRR_0_def zero_less_mult_iff)
qed

lemma IRR_0_le:
  assumes "0 < K" "1 \<le> m" "1 \<le> N"
  shows "IRR_0 K m N \<le> 1 / K"
proof -
  have u: "0 < 1 + K / real_of_int m" using assms by (simp add: add_pos_nonneg)
  have "0 < (1 + K / real_of_int m) powi (N * m)"
    using u by (rule zero_less_power_int)
  then have "1 - 1 / (1 + K / real_of_int m) powi (N * m) \<le> 1" by simp
  then have "1 / K * (1 - 1 / (1 + K / real_of_int m) powi (N * m)) \<le> 1 / K * 1"
    using assms by (intro mult_left_mono) simp_all
  then show ?thesis by (simp add: IRR_0_def)
qed

lemma IRR_0_tendsto:
  assumes "1 \<le> m" "1 \<le> N"
  shows "((\<lambda>K. IRR_0 K m N) \<longlongrightarrow> 0) at_top"
proof (rule tendsto_sandwich)
  show "\<forall>\<^sub>F K in at_top. 0 \<le> IRR_0 K m N"
    using eventually_gt_at_top[of 0]
    by eventually_elim (use assms IRR_0_pos in \<open>simp add: less_imp_le\<close>)
  show "\<forall>\<^sub>F K in at_top. IRR_0 K m N \<le> 1 / K"
    using eventually_gt_at_top[of 0]
    by eventually_elim (use assms IRR_0_le in simp)
  show "((\<lambda>K::real. 0) \<longlongrightarrow> 0) at_top" by simp
  show "((\<lambda>K::real. 1 / K) \<longlongrightarrow> 0) at_top"
    by (simp add: divide_inverse tendsto_inverse_0_at_top filterlim_ident)
qed

text \<open>
  C6. For a frequency \<open>m \<ge> 1\<close> and a number of periods \<open>N \<ge> 1\<close>, the annuity
  \<open>IRR_0 K m N = (1/K) * (1 - (1 + K/m)^(- N m))\<close> is strictly positive at every strike
  \<open>K > 0\<close>, and it tends to \<open>0\<close> as \<open>K\<close> tends to infinity.
\<close>

theorem IRR_0_positive_and_vanishing:
  assumes "1 \<le> m" "1 \<le> N"
  shows "(0 < K \<longrightarrow> 0 < IRR_0 K m N)
    \<and> IRR_0 K m N = (1 / K) * (1 - (1 + K / of_int m) powi (- (N * m)))
    \<and> ((\<lambda>K. IRR_0 K m N) \<longlongrightarrow> 0) at_top"
  using IRR_0_pos[OF _ assms] IRR_0_tendsto[OF assms]
  by (simp add: IRR_0_def power_int_minus inverse_eq_divide)

theorem IRR_0_positive_and_vanishing_witness:
  "0 < IRR_0 (3 / 100) 2 10 \<and> ((\<lambda>K. IRR_0 K 2 10) \<longlongrightarrow> 0) at_top"
  using IRR_0_positive_and_vanishing[of 2 10 "3 / 100"] by simp

section \<open>Derivatives of the IRR, payoff and weight functions\<close>

lemma DERIV_inv_powi:
  assumes "0 < K" "1 \<le> m"
  shows "((\<lambda>K. 1 / (1 + K / real_of_int m) powi n) has_real_derivative
            - (of_int n / of_int m / (1 + K / of_int m) powi (n + 1))) (at K)"
proof -
  define u where "u = 1 + K / real_of_int m"
  have u: "0 < u" using assms by (simp add: u_def add_pos_nonneg)
  have m: "0 < real_of_int m" using assms by simp
  have "((\<lambda>K. 1 / (1 + K / real_of_int m) powi n) has_real_derivative
          - (of_int n * (1 + K / of_int m) powi (n - 1) * (1 / of_int m))
             / ((1 + K / of_int m) powi n * (1 + K / of_int m) powi n)) (at K)"
    using u m unfolding u_def
    by (auto intro!: derivative_eq_intros simp: power_int_eq_0_iff)
  also have "- (of_int n * (1 + K / of_int m) powi (n - 1) * (1 / of_int m))
             / ((1 + K / of_int m) powi n * (1 + K / of_int m) powi n)
           = - (of_int n / of_int m / (1 + K / of_int m) powi (n + 1))"
    using u m unfolding u_def[symmetric]
    by (simp add: power_int_diff power_int_add field_simps)
  finally show ?thesis .
qed

lemma DERIV_annuity_shape:
  fixes q :: "real \<Rightarrow> real"
  assumes "(q has_real_derivative q') (at K)" "K \<noteq> 0"
  shows "((\<lambda>K. 1 / K * (1 - q K)) has_real_derivative
           (- 1 / (K * K)) * (1 - q K) + 1 / K * (- q')) (at K)"
  using assms(2) by (auto intro!: derivative_eq_intros assms(1) simp: field_simps)

lemma DERIV_annuity_shape1:
  fixes f r :: "real \<Rightarrow> real"
  assumes "(f has_real_derivative f') (at K)" "(r has_real_derivative r') (at K)" "K \<noteq> 0"
  shows "((\<lambda>K. (- 1) / K * f K + c * (1 / K * r K)) has_real_derivative
           (1 / (K * K) * f K + (- 1) / K * f')
           + c * ((- 1 / (K * K)) * r K + 1 / K * r')) (at K)"
  using assms(3) by (auto intro!: derivative_eq_intros assms(1,2) simp: field_simps)

lemma DERIV_IRR_0:
  assumes "0 < K" "1 \<le> m" "1 \<le> N"
  shows "((\<lambda>K. IRR_0 K m N) has_real_derivative IRR_1 K m N) (at K)"
proof -
  have m: "real_of_int m \<noteq> 0" and K: "K \<noteq> 0" using assms by simp_all
  note d = DERIV_annuity_shape[OF DERIV_inv_powi[OF assms(1,2), of "N * m"] K]
  have "(- 1 / (K * K)) * (1 - 1 / (1 + K / real_of_int m) powi (N * m))
          + 1 / K * (- (- (of_int (N * m) / of_int m / (1 + K / of_int m) powi (N * m + 1))))
        = IRR_1 K m N"
    using K m by (simp add: IRR_1_def IRR_0_def)
  with d show ?thesis by (simp only: IRR_0_def[abs_def])
qed

lemma DERIV_IRR_1:
  assumes "0 < K" "1 \<le> m" "1 \<le> N"
  shows "((\<lambda>K. IRR_1 K m N) has_real_derivative IRR_2 K m N) (at K)"
proof -
  have m: "real_of_int m \<noteq> 0" and K: "K \<noteq> 0" using assms by simp_all
  note d = DERIV_annuity_shape1[OF DERIV_IRR_0[OF assms]
      DERIV_inv_powi[OF assms(1,2), of "N * m + 1"] K, of "of_int N"]
  have f: "(\<lambda>K. (- 1) / K * IRR_0 K m N
             + of_int N * (1 / K * (1 / (1 + K / of_int m) powi (N * m + 1))))
           = (\<lambda>K. IRR_1 K m N)"
    using m by (auto simp: IRR_1_def fun_eq_iff)
  have "(1 / (K * K) * IRR_0 K m N + (- 1) / K * IRR_1 K m N)
          + of_int N * ((- 1 / (K * K)) * (1 / (1 + K / of_int m) powi (N * m + 1))
              + 1 / K * - (of_int (N * m + 1) / of_int m
                            / (1 + K / of_int m) powi (N * m + 1 + 1)))
        = IRR_2 K m N"
  proof -
    have e: "N * m + 1 + 1 = N * m + 2" by simp
    have i1: "IRR_0 K m N = of_int N / (1 + K / of_int m) powi (N * m + 1) - K * IRR_1 K m N"
      using K m by (simp add: IRR_1_def field_simps)
    show ?thesis
      unfolding e IRR_2_def using K m
      by (subst i1) (simp add: field_simps)
  qed
  with d show ?thesis by (simp only: f)
qed

lemma DERIV_g_0:
  assumes "0 < K"
  shows "(g_0 has_real_derivative g_1 K) (at K)"
proof -
  have "((\<lambda>K. K powr (1 / 4) - (4 / 100) powr (1 / 2)) has_real_derivative
          (1 / 4) * K powr (1 / 4 - 1) - 0) (at K)"
    by (intro DERIV_diff has_real_derivative_powr assms DERIV_const)
  then show ?thesis by (simp add: g_0_def[abs_def] g_1_def)
qed

lemma DERIV_g_1:
  assumes "0 < K"
  shows "(g_1 has_real_derivative g_2 K) (at K)"
proof -
  have "((\<lambda>K. (1 / 4) * K powr ((- 3) / 4)) has_real_derivative
          (1 / 4) * (((- 3) / 4) * K powr ((- 3) / 4 - 1))) (at K)"
    by (intro DERIV_cmult has_real_derivative_powr assms)
  then show ?thesis by (simp add: g_1_def[abs_def] g_2_def)
qed

lemma DERIV_quotient_rule1:
  fixes i0 g0 :: "real \<Rightarrow> real"
  assumes "(i0 has_real_derivative i1) (at K)" "(g0 has_real_derivative g1) (at K)"
    and "i0 K \<noteq> 0"
  shows "((\<lambda>K. g0 K / i0 K) has_real_derivative
           (i0 K * g1 - g0 K * i1) / (i0 K) ^ 2) (at K)"
  using assms(3)
  by (auto intro!: derivative_eq_intros assms(1,2) simp: field_simps power2_eq_square)

lemma DERIV_quotient_rule2:
  fixes i0 i1 g0 g1 :: "real \<Rightarrow> real"
  assumes "(i0 has_real_derivative i1 K) (at K)" "(i1 has_real_derivative i2) (at K)"
    and "(g0 has_real_derivative g1 K) (at K)" "(g1 has_real_derivative g2) (at K)"
    and "i0 K \<noteq> 0"
  shows "((\<lambda>K. (i0 K * g1 K - g0 K * i1 K) / (i0 K) ^ 2) has_real_derivative
           (i0 K * g2 - i2 * g0 K - 2 * i1 K * g1 K) / (i0 K) ^ 2
           + 2 * (i1 K) ^ 2 * g0 K / (i0 K) ^ 3) (at K)"
  using assms(5)
  by (auto intro!: derivative_eq_intros assms(1-4)
      simp: field_simps power2_eq_square power3_eq_cube)

lemma DERIV_h_0:
  assumes "0 < K" "1 \<le> m" "1 \<le> N"
  shows "((\<lambda>K. h_0 K m N) has_real_derivative h_1 K m N) (at K)"
  unfolding h_0_def[abs_def] h_1_def
  using IRR_0_pos[OF assms]
  by (intro DERIV_quotient_rule1 DERIV_IRR_0 DERIV_g_0 assms) simp

lemma DERIV_h_1:
  assumes "0 < K" "1 \<le> m" "1 \<le> N"
  shows "((\<lambda>K. h_1 K m N) has_real_derivative h_2 K m N) (at K)"
  unfolding h_1_def[abs_def] h_2_def
  using IRR_0_pos[OF assms]
  by (intro DERIV_quotient_rule2 DERIV_IRR_0 DERIV_IRR_1 DERIV_g_0 DERIV_g_1 assms) simp

lemma IRR_0_unit: "IRR_0 1 1 1 = 1 / 2"
  by (simp add: IRR_0_def)

lemma IRR_1_unit: "IRR_1 1 1 1 = - 1 / 4"
  by (simp add: IRR_1_def IRR_0_unit)

lemma g_0_unit: "g_0 1 = 4 / 5"
  by (simp add: g_0_def powr_half_1_25)

lemma g_1_unit: "g_1 1 = 1 / 4"
  by (simp add: g_1_def)

lemma h_1_unit: "h_1 1 1 1 = 13 / 10"
  by (simp add: h_1_def IRR_0_unit IRR_1_unit g_0_unit g_1_unit power2_eq_square)

text \<open>
  C5. At every strike \<open>K > 0\<close>, with \<open>m \<ge> 1\<close> and \<open>N \<ge> 1\<close>, the annuity \<open>IRR_0 K m N\<close> is
  not zero, \<open>h_1\<close> is the derivative of \<open>h_0 = g_0 / IRR_0\<close> with respect to the strike and
  \<open>h_2\<close> is the derivative of \<open>h_1\<close>; \<open>IRR_1\<close> and \<open>IRR_2\<close> are the first and second
  derivative of \<open>IRR_0\<close>, and \<open>g_1\<close> and \<open>g_2\<close> those of \<open>g_0\<close>.
\<close>

theorem h_derivatives_consistent:
  assumes "0 < K" "1 \<le> m" "1 \<le> N"
  shows "IRR_0 K m N \<noteq> 0
    \<and> ((\<lambda>K. h_0 K m N) has_real_derivative h_1 K m N) (at K)
    \<and> ((\<lambda>K. h_1 K m N) has_real_derivative h_2 K m N) (at K)
    \<and> ((\<lambda>K. IRR_0 K m N) has_real_derivative IRR_1 K m N) (at K)
    \<and> ((\<lambda>K. IRR_1 K m N) has_real_derivative IRR_2 K m N) (at K)
    \<and> (g_0 has_real_derivative g_1 K) (at K)
    \<and> (g_1 has_real_derivative g_2 K) (at K)"
  using IRR_0_pos[OF assms] DERIV_h_0[OF assms] DERIV_h_1[OF assms] DERIV_IRR_0[OF assms]
    DERIV_IRR_1[OF assms] DERIV_g_0[OF assms(1)] DERIV_g_1[OF assms(1)]
  by simp

theorem h_derivatives_consistent_witness:
  "((\<lambda>K. h_0 K 1 1) has_real_derivative 13 / 10) (at 1)
   \<and> ((\<lambda>K. IRR_0 K 1 1) has_real_derivative - 1 / 4) (at 1)
   \<and> (g_0 has_real_derivative 1 / 4) (at 1)"
  using h_derivatives_consistent[of 1 1 1] by (simp add: h_1_unit IRR_1_unit g_1_unit)

section \<open>The SABR volatility\<close>

lemma radicand_gt:
  fixes rho z :: real
  assumes "\<bar>rho\<bar> < 1"
  shows "(rho - z)\<^sup>2 < 1 - 2 * rho * z + z * z"
proof -
  have "rho\<^sup>2 < 1" using assms by (simp add: abs_square_less_1)
  then show ?thesis by (simp add: power2_eq_square algebra_simps)
qed

lemma zhi_arg_pos:
  fixes rho z :: real
  assumes "\<bar>rho\<bar> < 1"
  shows "0 < (sqrt (1 - 2 * rho * z + z * z) + z - rho) / (1 - rho)"
proof -
  have "rho - z < sqrt (1 - 2 * rho * z + z * z)"
    using radicand_gt[OF assms] by (rule real_less_rsqrt)
  moreover have "0 < 1 - rho" using assms by simp
  ultimately show ?thesis by simp
qed

lemma zhi_pos:
  fixes rho z :: real
  assumes "\<bar>rho\<bar> < 1" "0 < z"
  shows "0 < ln ((sqrt (1 - 2 * rho * z + z * z) + z - rho) / (1 - rho))"
proof -
  have r: "0 < 1 - rho" using assms by simp
  then have "0 < z * (1 - rho)" using assms(2) by simp
  then have "(1 - z)\<^sup>2 < 1 - 2 * rho * z + z * z"
    by (simp add: power2_eq_square algebra_simps)
  then have "1 - z < sqrt (1 - 2 * rho * z + z * z)"
    by (rule real_less_rsqrt)
  then have "1 < (sqrt (1 - 2 * rho * z + z * z) + z - rho) / (1 - rho)"
    using r by simp
  then show ?thesis by simp
qed

lemma zhi_neg:
  fixes rho z :: real
  assumes "\<bar>rho\<bar> < 1" "z < 0"
  shows "ln ((sqrt (1 - 2 * rho * z + z * z) + z - rho) / (1 - rho)) < 0"
proof -
  have r: "0 < 1 - rho" using assms by simp
  then have "z * (1 - rho) < 0" using assms(2) by (simp add: mult_neg_pos)
  then have "1 - 2 * rho * z + z * z < (1 - z)\<^sup>2"
    by (simp add: power2_eq_square algebra_simps)
  then have "sqrt (1 - 2 * rho * z + z * z) < 1 - z"
    using assms(2) by (intro real_less_lsqrt) simp_all
  then have "(sqrt (1 - 2 * rho * z + z * z) + z - rho) / (1 - rho) < 1"
    using r by simp
  then show ?thesis using zhi_arg_pos[OF assms(1), of z] by simp
qed

lemma z_over_zhi_pos:
  fixes rho z :: real
  assumes "\<bar>rho\<bar> < 1" "z \<noteq> 0"
  shows "0 < z / ln ((sqrt (1 - 2 * rho * z + z * z) + z - rho) / (1 - rho))"
proof (cases "0 < z")
  case True
  then show ?thesis using zhi_pos[OF assms(1) True] by simp
next
  case False
  then have "z < 0" using assms(2) by simp
  then show ?thesis
    using zhi_neg[OF assms(1) \<open>z < 0\<close>] by (simp add: zero_less_divide_iff)
qed

lemma SABR_split:
  "SABR F K T alpha beta rho nu
     = SABR_factor F K T alpha beta rho nu * SABR_weight F K alpha beta rho nu"
  by (simp add: SABR_def SABR_factor_def SABR_weight_def Let_def)

lemma SABR_weight_sqrt:
  assumes "\<not> \<bar>F - K\<bar> < 1 / 10 ^ 12" "\<bar>rho\<bar> \<le> 1"
  shows "SABR_weight F K alpha beta rho nu =
     (let z = (nu / alpha) * (F * K) powr ((1 - beta) / 2) * ln (F / K);
          chi = ln ((sqrt (1 - 2 * rho * z + z\<^sup>2) + z - rho) / (1 - rho));
          denom1 = ((1 - beta)\<^sup>2 / 24) * (ln (F / K))\<^sup>2;
          denom2 = ((1 - beta) ^ 4 / 1920) * (ln (F / K)) ^ 4
      in alpha * z / ((F * K) powr ((1 - beta) / 2) * (1 + denom1 + denom2) * chi))"
proof -
  define z where "z = (nu / alpha) * ((F * K) powr ((1 - beta) / 2)) * ln (F / K)"
  have "rho\<^sup>2 \<le> 1" using assms(2) by (simp add: abs_square_le_1)
  moreover have "1 - 2 * rho * z + z * z = (rho - z)\<^sup>2 + (1 - rho\<^sup>2)"
    by (simp add: power2_eq_square algebra_simps)
  ultimately have "0 \<le> 1 - 2 * rho * z + z * z"
    using zero_le_power2[of "rho - z"] by linarith
  then have s: "(1 - 2 * rho * z + z * z) powr (1 / 2) = sqrt (1 - 2 * rho * z + z * z)"
    by (rule powr_half_sqrt)
  have h: "(1 / 2) * (1 - beta) = (1 - beta) / 2" by simp
  show ?thesis
    using assms(1) s unfolding z_def
    by (simp only: SABR_weight_def Let_def h if_False power2_eq_square)
qed

lemma SABR_weight_pos:
  assumes "0 < F" "0 < K" "\<bar>rho\<bar> < 1" "0 < alpha" "0 < nu"
  shows "0 < SABR_weight F K alpha beta rho nu"
proof (cases "\<bar>F - K\<bar> < 1 / 10 ^ 12")
  case True
  then show ?thesis using assms by (simp add: SABR_weight_def)
next
  case False
  define z where "z = (nu / alpha) * (F * K) powr ((1 - beta) / 2) * ln (F / K)"
  define d where "d = 1 + ((1 - beta)\<^sup>2 / 24) * (ln (F / K))\<^sup>2
                        + ((1 - beta) ^ 4 / 1920) * (ln (F / K)) ^ 4"
  have pw: "0 < (F * K) powr ((1 - beta) / 2)" using assms(1,2) by simp
  have "F \<noteq> K" using False by auto
  then have "F / K \<noteq> 1" using assms(2) by simp
  then have "ln (F / K) \<noteq> 0" using assms(1,2) by (simp add: ln_eq_zero_iff)
  then have z: "z \<noteq> 0" using assms pw by (simp add: z_def)
  have "0 \<le> ((1 - beta)\<^sup>2 / 24) * (ln (F / K))\<^sup>2" by simp
  moreover have "0 \<le> ((1 - beta) ^ 4 / 1920) * (ln (F / K)) ^ 4" by simp
  ultimately have d: "0 < d" unfolding d_def by linarith
  have w: "SABR_weight F K alpha beta rho nu
      = alpha / ((F * K) powr ((1 - beta) / 2) * d)
        * (z / ln ((sqrt (1 - 2 * rho * z + z * z) + z - rho) / (1 - rho)))"
    using assms(3) unfolding z_def d_def
    by (simp add: SABR_weight_sqrt[OF False] Let_def power2_eq_square)
  have "0 < alpha / ((F * K) powr ((1 - beta) / 2) * d)"
    using assms(4) pw d by (intro divide_pos_pos mult_pos_pos)
  then show ?thesis
    unfolding w using z_over_zhi_pos[OF assms(3) z] by (rule mult_pos_pos)
qed

lemma SABR_claimed_general:
  assumes "\<not> \<bar>F - K\<bar> < 1 / 10 ^ 12" "\<bar>rho\<bar> \<le> 1"
  shows "SABR_claimed F K T alpha beta rho nu =
     (1 + (((1 - beta)\<^sup>2 / 24) * alpha\<^sup>2 / F powr (2 - 2 * beta)
           + (1 / 4) * rho * beta * nu * alpha / F powr (1 - beta)
           + ((2 - 3 * rho\<^sup>2) / 24) * nu\<^sup>2) * T) * SABR_weight F K alpha beta rho nu"
  using assms(1) by (simp add: SABR_claimed_def SABR_weight_sqrt[OF assms] Let_def)

text \<open>
  C3, as stated: \<open>SABR\<close> branches on \<open>\<bar>F - K\<bar> < 1e-12\<close>; the three correction terms are
  \<open>term1 = ((1 - beta)^2 / 24) * alpha^2 / F^(2 - 2 beta)\<close>,
  \<open>term2 = 0.25 * rho * beta * nu * alpha / F^(1 - beta)\<close> and
  \<open>term3 = ((2 - 3 rho^2) / 24) * nu^2\<close>, and they enter both the at-the-money form and
  the general form. This is \<open>SABR_claimed\<close>. Away from the money the notebook computes
  the first two terms from \<open>F * K\<close>, not from \<open>F\<close>: at \<open>F = 1\<close>, \<open>K = 16\<close>, \<open>T = 1\<close>,
  \<open>alpha = 1\<close>, \<open>beta = 1/2\<close>, \<open>rho = 0\<close>, \<open>nu = 1\<close> its first term is
  \<open>(0.25 / 24) / 16^0.5 = 1/384\<close>, where the stated one is \<open>(0.25 / 24) / 1 = 1/96\<close>, and
  the two volatilities differ.
\<close>

theorem SABR_claimed_counterexample:
  "SABR 1 16 1 1 (1 / 2) 0 1 \<noteq> SABR_claimed 1 16 1 1 (1 / 2) 0 1"
proof -
  have g: "\<not> \<bar>(1::real) - 16\<bar> < 1 / 10 ^ 12" by simp
  have w: "0 < SABR_weight 1 16 1 (1 / 2) 0 1"
    by (rule SABR_weight_pos) simp_all
  have c: "SABR 1 16 1 1 (1 / 2) 0 1
      = (1 + (1 / 384 + 1 / 12)) * SABR_weight 1 16 1 (1 / 2) 0 1"
    by (simp add: SABR_split SABR_factor_def sixteen_powr_half power2_eq_square)
  have s: "SABR_claimed 1 16 1 1 (1 / 2) 0 1
      = (1 + (1 / 96 + 1 / 12)) * SABR_weight 1 16 1 (1 / 2) 0 1"
    by (simp add: SABR_claimed_general[OF g] power2_eq_square)
  show ?thesis using w unfolding c s by simp
qed

text \<open>
  C3, amended: for valid inputs (\<open>F\<close>, \<open>K\<close>, \<open>alpha\<close>, \<open>nu\<close> positive and \<open>\<bar>rho\<bar> < 1\<close>),
  \<open>SABR\<close> branches on \<open>\<bar>F - K\<bar> < 1e-12\<close>. When the test holds it returns the
  at-the-money form \<open>alpha * (1 + (term1 + term2 + term3) * T) / F^(1 - beta)\<close> with the
  three terms computed from \<open>F\<close>. Otherwise it returns the general form
  \<open>alpha * (1 + (term1 + term2 + term3) * T) * z\<close> divided by
  \<open>(F K)^((1 - beta)/2) * (1 + denom1 + denom2) * chi\<close>, in which
  \<open>term1 = ((1 - beta)^2 / 24) * alpha^2 / (F K)^(1 - beta)\<close> and
  \<open>term2 = 0.25 * rho * beta * nu * alpha / (F K)^((1 - beta)/2)\<close> are computed from
  \<open>F * K\<close>, \<open>term3\<close> is as before, and \<open>z\<close>, \<open>chi\<close>, \<open>denom1\<close>, \<open>denom2\<close> are as stated.
\<close>

theorem SABR_two_branches:
  assumes "0 < F" "0 < K" "0 < alpha" "0 < nu" "\<bar>rho\<bar> < 1"
  shows "SABR F K T alpha beta rho nu =
    (if \<bar>F - K\<bar> < 1 / 10 ^ 12 then
       (let term1 = ((1 - beta)\<^sup>2 / 24) * alpha\<^sup>2 / F powr (2 - 2 * beta);
            term2 = (1 / 4) * rho * beta * nu * alpha / F powr (1 - beta);
            term3 = ((2 - 3 * rho\<^sup>2) / 24) * nu\<^sup>2
        in alpha * (1 + (term1 + term2 + term3) * T) / F powr (1 - beta))
     else
       (let term1 = ((1 - beta)\<^sup>2 / 24) * alpha\<^sup>2 / (F * K) powr (1 - beta);
            term2 = (1 / 4) * rho * beta * nu * alpha / (F * K) powr ((1 - beta) / 2);
            term3 = ((2 - 3 * rho\<^sup>2) / 24) * nu\<^sup>2;
            z = (nu / alpha) * (F * K) powr ((1 - beta) / 2) * ln (F / K);
            chi = ln ((sqrt (1 - 2 * rho * z + z\<^sup>2) + z - rho) / (1 - rho));
            denom1 = ((1 - beta)\<^sup>2 / 24) * (ln (F / K))\<^sup>2;
            denom2 = ((1 - beta) ^ 4 / 1920) * (ln (F / K)) ^ 4
        in alpha * (1 + (term1 + term2 + term3) * T) * z
             / ((F * K) powr ((1 - beta) / 2) * (1 + denom1 + denom2) * chi)))"
proof (cases "\<bar>F - K\<bar> < 1 / 10 ^ 12")
  case True
  then show ?thesis
    by (simp add: SABR_split SABR_factor_def SABR_weight_def Let_def power2_eq_square
        mult.assoc)
next
  case False
  have r: "\<bar>rho\<bar> \<le> 1" using assms(5) by simp
  from False show ?thesis
    by (simp add: SABR_split SABR_factor_def SABR_weight_sqrt[OF False r] Let_def
        power2_eq_square mult.assoc)
qed

theorem SABR_two_branches_witness:
  "SABR (3 / 100) (3 / 100) 5 (1 / 5) 1 0 1 = 17 / 60
   \<and> SABR 1 16 1 1 (1 / 2) 0 1 =
       (1 + (1 / 384 + 1 / 12)) * (2 * ln (1 / 16))
         / (2 * (1 + (1 / 96) * (ln (1 / 16))\<^sup>2 + (1 / 30720) * (ln (1 / 16)) ^ 4)
              * ln (sqrt (1 + (2 * ln (1 / 16))\<^sup>2) + 2 * ln (1 / 16)))"
  using SABR_two_branches[of "3 / 100" "3 / 100" "1 / 5" 1 0 5 1]
    SABR_two_branches[of 1 16 1 1 0 1 "1 / 2"]
  by (simp add: Let_def sixteen_powr_half sixteen_powr_quarter power2_eq_square power_divide)

text \<open>
  C7, as stated: for \<open>F\<close>, \<open>K\<close>, \<open>T\<close> positive, \<open>0 < beta \<le> 1\<close>, \<open>\<bar>rho\<bar> < 1\<close> and \<open>alpha\<close>,
  \<open>nu\<close> positive, \<open>SABR\<close> returns a strictly positive volatility. At \<open>F = K = 0.03\<close>,
  \<open>T = 30\<close>, \<open>alpha = 0.2\<close>, \<open>beta = 1\<close>, \<open>rho = - 0.9\<close>, \<open>nu = 1\<close> the at-the-money branch
  returns \<open>0.2 * (1 + (0 - 0.045 - 0.43/24) * 30) = - 0.1775\<close>.
\<close>

theorem SABR_not_positive_counterexample:
  "(0::real) < 3 / 100 \<and> (0::real) < 30 \<and> (0::real) < 1 \<and> (1::real) \<le> 1
     \<and> \<bar>- 9 / 10 :: real\<bar> < 1 \<and> (0::real) < 1 / 5
     \<and> SABR (3 / 100) (3 / 100) 30 (1 / 5) 1 (- 9 / 10) 1 = - 71 / 400
     \<and> \<not> 0 < SABR (3 / 100) (3 / 100) 30 (1 / 5) 1 (- 9 / 10) 1"
  by (simp add: SABR_def Let_def)

text \<open>
  C7, amended: for \<open>F\<close>, \<open>K\<close>, \<open>T\<close> positive, \<open>0 < beta \<le> 1\<close>, \<open>\<bar>rho\<bar> < 1\<close> and \<open>alpha\<close>,
  \<open>nu\<close> positive, the volatility that \<open>SABR\<close> returns is strictly positive exactly when
  the factor \<open>1 + (numer1 + numer2 + numer3) * T\<close> of the branch taken is strictly
  positive.
\<close>

theorem SABR_positive_iff_factor:
  assumes "0 < F" "0 < K" "0 < T" "0 < beta" "beta \<le> 1" "\<bar>rho\<bar> < 1" "0 < alpha" "0 < nu"
  shows "0 < SABR F K T alpha beta rho nu \<longleftrightarrow> 0 < SABR_factor F K T alpha beta rho nu"
  using SABR_weight_pos[OF assms(1,2,6,7,8), of beta]
  by (simp add: SABR_split zero_less_mult_iff)

theorem SABR_positive_iff_factor_witness:
  "0 < SABR (3 / 100) (3 / 100) 5 (1 / 5) 1 0 1 \<and> 0 < SABR 1 16 1 1 (1 / 2) 0 1"
  using SABR_positive_iff_factor[of "3 / 100" "3 / 100" 5 1 0 "1 / 5" 1]
    SABR_positive_iff_factor[of 1 16 1 "1 / 2" 0 1 1]
  by (simp add: SABR_factor_def sixteen_powr_half power2_eq_square)

section \<open>Scenario 2 with the threshold at the forward\<close>

lemma SABR_atm_unit: "SABR 1 1 1 1 1 0 1 = 13 / 12"
  by (simp add: SABR_def Let_def)

lemma payer_atm_unit_pos: "0 < payer_swaption 1 1 1 (SABR 1 1 1 1 1 0 1) 1 1 1"
proof -
  have "1 \<le> sqrt 2" by simp
  then have "13 \<le> 24 * sqrt 2" by linarith
  then have "13 / 12 / 2 / sqrt 2 \<le> 1" by (simp add: field_simps)
  then have "0 < erf (13 / 12 / 2 / sqrt 2)"
    by (intro erf_pos) simp_all
  then show ?thesis
    by (simp add: payer_swaption_def IRR_0_unit SABR_atm_unit Black76Call_atm)
qed

text \<open>
  C8, as stated: with the threshold of the second scenario set to the forward \<open>F\<close>, the
  value \<open>v_1\<close> equals the upper-tail integral \<open>I_call\<close> of the first scenario. At
  \<open>D = F = T = 1\<close>, \<open>m = N = 1\<close>, \<open>alpha = beta = nu = 1\<close>, \<open>rho = 0\<close> the boundary term is
  \<open>h_1 1 1 1 = 1.3\<close> times an at-the-money payer swaption of positive value, so the two
  differ.
\<close>

theorem v_1_at_forward_counterexample:
  "v_1 midpoint_quad 1 1 1 1 1 1 1 1 0 1 \<noteq> fst (I_call midpoint_quad 1 1 1 1 1 1 1 0 1)"
  using payer_atm_unit_pos by (simp add: v_1_def I_call2_def I_call_def h_1_unit)

text \<open>
  C8, amended: with the threshold of the second scenario set to the forward \<open>F\<close>, the
  value \<open>v_1\<close> equals the upper-tail integral \<open>I_call\<close> of the first scenario plus the
  boundary term \<open>h_1 F m N\<close> times the payer swaption struck at \<open>F\<close> with volatility
  \<open>SABR F F T alpha beta rho nu\<close>.
\<close>

theorem v_1_at_forward:
  "v_1 quad D F F T m N alpha beta rho nu =
     h_1 F m N * payer_swaption D F F (SABR F F T alpha beta rho nu) T m N
     + fst (I_call quad D F T m N alpha beta rho nu)"
  by (simp add: v_1_def I_call2_def I_call_def)

end
